theory Spec2Isabelle
  imports Main "HOL-Library.Word"
begin

section \<open>The cancellation registry of package hiveproxy\<close>

text \<open>
  The Go type being modelled:
  \<^verbatim>\<open>
  type proxyFunctions struct {
      mu     sync.Mutex
      cancel map[uint64]context.CancelFunc
  }
  \<close>
  A \<open>context.CancelFunc\<close> obtained from \<open>context.WithCancel\<close> is an opaque
  closure that ends one scope. It is represented by the token of the scope it ends;
  every call of \<open>context.WithCancel\<close> draws a fresh token. A context is the chain of
  the tokens of its cancellable ancestors, innermost first (\<open>context.Background()\<close>
  is the empty chain), and it is done as soon as one token of the chain has been
  cancelled.

  A Go map value is either nil or an allocated table: \<open>None\<close> is the nil map. Reading a
  nil map gives the zero value, \<open>delete\<close> on it does nothing, and an assignment to an
  entry of it panics. The only values ever stored in the table are results of
  \<open>context.WithCancel\<close>, which are never nil, so \<open>pfn.cancel[id] != nil\<close> is
  the presence of the key.

  Every method body runs between \<open>pfn.mu.Lock()\<close> and the deferred
  \<open>pfn.mu.Unlock()\<close>; each is therefore one atomic transition of the shared state,
  and the mutex itself has no field in the model.
\<close>

type_synonym uint64 = "64 word"
type_synonym CancelFunc = nat
type_synonym "context" = "nat list"
type_synonym gomap = "(uint64 \<rightharpoonup> CancelFunc) option"

record proxyFunctions =
  cancel :: gomap

record world =
  pfn :: proxyFunctions
  cancelled :: "nat set"
  next_token :: nat

definition zero_world :: world where
  "zero_world = \<lparr>pfn = \<lparr>cancel = None\<rparr>, cancelled = {}, next_token = 0\<rparr>"

definition go_index :: "gomap \<Rightarrow> uint64 \<Rightarrow> CancelFunc option" where
  "go_index m k = (case m of None \<Rightarrow> None | Some t \<Rightarrow> t k)"

definition go_delete :: "gomap \<Rightarrow> uint64 \<Rightarrow> gomap" where
  "go_delete m k = (case m of None \<Rightarrow> None | Some t \<Rightarrow> Some (t(k := None)))"

definition go_assign :: "gomap \<Rightarrow> uint64 \<Rightarrow> CancelFunc \<Rightarrow> string + gomap" where
  "go_assign m k v =
     (case m of None \<Rightarrow> Inl ''assignment to entry in nil map''
      | Some t \<Rightarrow> Inr (Some (t(k \<mapsto> v))))"

definition ctx_done :: "world \<Rightarrow> context \<Rightarrow> bool" where
  "ctx_done w ctx = (set ctx \<inter> cancelled w \<noteq> {})"

definition invoke :: "CancelFunc \<Rightarrow> world \<Rightarrow> world" where
  "invoke c w = w\<lparr>cancelled := insert c (cancelled w)\<rparr>"

definition set_cancel :: "gomap \<Rightarrow> world \<Rightarrow> world" where
  "set_cancel m w = w\<lparr>pfn := (pfn w)\<lparr>cancel := m\<rparr>\<rparr>"

definition registry :: "world \<Rightarrow> uint64 \<Rightarrow> CancelFunc option" where
  "registry w k = go_index (cancel (pfn w)) k"

text \<open>
  \<^verbatim>\<open>
  func (pfn *proxyFunctions) makeContext(baseCtx context.Context, id uint64)
          (context.Context, context.CancelFunc) {
      ctx, cancel := context.WithCancel(baseCtx)
      pfn.mu.Lock()
      defer pfn.mu.Unlock()
      if pfn.cancel == nil {
          pfn.cancel = make(map[uint64]context.CancelFunc)
      }
      if pfn.cancel[id] != nil {
          panic("duplicate id")
      }
      pfn.cancel[id] = cancel
      cf := func() { ... }
      return ctx, cf
  }
  \<close>
  A panic is the left summand and carries the message and the state the panic leaves
  behind. The returned closure \<open>cf\<close> captures \<open>cancel\<close> and \<open>id\<close>; the model
  returns the token, and \<open>cf\<close> below is the closure's body. The request id is
  written \<open>i\<close>, since \<open>id\<close> is the identity function of HOL.
\<close>

definition makeContext ::
  "context \<Rightarrow> uint64 \<Rightarrow> world \<Rightarrow> (string \<times> world) + (context \<times> CancelFunc \<times> world)" where
  "makeContext baseCtx i w =
     (let c = next_token w;
          ctx = c # baseCtx;
          w1 = w\<lparr>next_token := Suc c\<rparr>;
          w2 = (if cancel (pfn w1) = None then set_cancel (Some Map.empty) w1 else w1)
      in if go_index (cancel (pfn w2)) i \<noteq> None then Inl (''duplicate id'', w2)
         else (case go_assign (cancel (pfn w2)) i c of
                 Inl msg \<Rightarrow> Inl (msg, w2)
               | Inr m \<Rightarrow> Inr (ctx, c, set_cancel m w2)))"

text \<open>
  \<^verbatim>\<open>
  cf := func() {
      pfn.mu.Lock()
      defer pfn.mu.Unlock()
      cancel()
      delete(pfn.cancel, id)
  }
  \<close>
\<close>

definition cf :: "CancelFunc \<Rightarrow> uint64 \<Rightarrow> world \<Rightarrow> world" where
  "cf c i w = (let w1 = invoke c w in set_cancel (go_delete (cancel (pfn w1)) i) w1)"

text \<open>
  \<^verbatim>\<open>
  func (pfn *proxyFunctions) Cancel(id uint64) {
      pfn.mu.Lock()
      defer pfn.mu.Unlock()
      cancel := pfn.cancel[id]
      if cancel != nil {
          cancel()
          delete(pfn.cancel, id)
      }
  }
  \<close>
\<close>

definition Cancel :: "uint64 \<Rightarrow> world \<Rightarrow> world" where
  "Cancel i w =
     (case go_index (cancel (pfn w)) i of
        None \<Rightarrow> w
      | Some c \<Rightarrow> (let w1 = invoke c w in set_cancel (go_delete (cancel (pfn w1)) i) w1))"

section \<open>The liveness prober\<close>

subsection \<open>Library functions the prober calls\<close>

text \<open>
  \<open>net.SplitHostPort\<close> and \<open>net.ParseIP\<close> belong to the Go standard library and
  are parameters of the model. \<open>net.SplitHostPort\<close> fails with a
  \<open>*net.AddrError\<close> only; \<open>net.ParseIP\<close> returns the bytes of the address, or nil.
\<close>

datatype AddrError = AddrError string string

datatype error = NetAddrError AddrError | ErrorString string

record netenv =
  SplitHostPort :: "string \<Rightarrow> AddrError + (string \<times> string)"
  ParseIP :: "string \<Rightarrow> 8 word list option"

text \<open>
  Modelled from the spec: \<open>strconv.ParseUint\<close> belongs to the Go standard library
  and is not part of the repository. The prober calls it as \<open>strconv.ParseUint(port, 10, 16)\<close>, and the
  port has to be ``a decimal value fitting in 16 bits'', ``a base-10 integer in
  [0, 65535]''. The definition is the library's digit loop at base 10 and bit size 16:
  the accumulator is a \<open>uint64\<close>, \<open>cutoff\<close> is the least number whose tenfold
  exceeds \<open>maxUint64\<close>, \<open>maxVal\<close> is \<open>1<<16 - 1\<close>; a byte that is no digit
  below the base is a syntax error, a value beyond \<open>maxVal\<close> a range error, and the
  empty string a syntax error.
\<close>

datatype NumError = ErrSyntax | ErrRange

definition byte :: "char \<Rightarrow> 8 word" where
  "byte c = of_nat (of_char c)"

definition lower :: "8 word \<Rightarrow> 8 word" where
  "lower c = or c 32"

definition cutoff :: uint64 where
  "cutoff = 18446744073709551615 div 10 + 1"

definition maxVal :: uint64 where
  "maxVal = push_bit 16 1 - 1"

definition digit_of :: "8 word \<Rightarrow> 8 word option" where
  "digit_of c =
     (if 48 \<le> c \<and> c \<le> 57 then Some (c - 48)
      else if 97 \<le> lower c \<and> lower c \<le> 122 then Some (lower c - 97 + 10)
      else None)"

fun parse_digits :: "uint64 \<Rightarrow> 8 word list \<Rightarrow> NumError + uint64" where
  "parse_digits n [] = Inr n"
| "parse_digits n (c # cs) =
     (case digit_of c of
        None \<Rightarrow> Inl ErrSyntax
      | Some d \<Rightarrow>
          if 10 \<le> d then Inl ErrSyntax
          else if cutoff \<le> n then Inl ErrRange
          else (let n' = n * 10; n1 = n' + ucast d
                in if n1 < n' \<or> maxVal < n1 then Inl ErrRange
                   else parse_digits n1 cs))"

declare parse_digits.simps(2) [simp del]

definition ParseUint :: "string \<Rightarrow> NumError + uint64" where
  "ParseUint s = (if s = [] then Inl ErrSyntax else parse_digits 0 (map byte s))"

text \<open>
  \<open>dialer.DialContext(ctx, "tcp", addr)\<close>: whether the endpoint accepts the
  connection is the environment's choice \<open>up\<close>; the library returns an error when
  the context is done before the connection is complete.
\<close>

definition DialContext :: "world \<Rightarrow> context \<Rightarrow> bool \<Rightarrow> bool" where
  "DialContext w ctx up = (up \<and> \<not> ctx_done w ctx)"

subsection \<open>Other goroutines\<close>

text \<open>
  While a probe polls, other goroutines act on the shared state: the control path
  calls \<open>Cancel\<close>, other probes register (\<open>makeContext\<close>) and run their deferred
  \<open>cf\<close>, and the caller may end an ancestor scope. Each is atomic. A panic in any
  goroutine ends the process.
\<close>

datatype action =
    CallCancel uint64
  | CallMakeContext "context" uint64
  | CallCf CancelFunc uint64
  | CallCancelFunc CancelFunc

fun step :: "action \<Rightarrow> world \<Rightarrow> (string \<times> world) + world" where
  "step (CallCancel i) w = Inr (Cancel i w)"
| "step (CallMakeContext baseCtx i) w =
     (case makeContext baseCtx i w of Inl p \<Rightarrow> Inl p | Inr (ctx, c, w') \<Rightarrow> Inr w')"
| "step (CallCf c i) w = Inr (cf c i w)"
| "step (CallCancelFunc c) w = Inr (invoke c w)"

subsection \<open>The polling loop and CheckLive\<close>

text \<open>
  \<^verbatim>\<open>
  for {
      select {
      case <-ctx.Done():
          return errors.New("canceled")
      case <-ticker.C:
          if time.Since(lastMsg) >= time.Second { log.Println(...); lastMsg = time.Now() }
          conn, err := dialer.DialContext(ctx, "tcp", addr)
          if err == nil {
              conn.Close()
              return nil
          }
      }
  }
  \<close>
  The loop has no bound. It is driven by a schedule: the list of what happens, in
  order, while the probe runs. \<open>DoneFires\<close> is \<open>select\<close> taking the case
  \<open>ctx.Done()\<close>, which it can only when the context is done (otherwise the event is
  skipped); \<open>TickFires up\<close> is \<open>select\<close> taking the ticker's case, with the
  endpoint up or not at the dial; \<open>Other a\<close> is a step of another goroutine. A
  schedule that runs out with the loop still waiting gives \<open>Polling\<close>. The probe's
  own effects on the network are recorded in order. The rate-limited log line does not
  influence control flow and is left out.
\<close>

datatype event = Other action | DoneFires | TickFires bool

datatype effect = Dial string bool | Close

datatype outcome =
    Returned "error option" world "effect list" "event list"
  | Panicked string world
  | Polling world "effect list"

fun poll :: "context \<Rightarrow> string \<Rightarrow> event list \<Rightarrow> world \<Rightarrow> effect list \<Rightarrow> outcome" where
  "poll ctx addr [] w tr = Polling w tr"
| "poll ctx addr (Other a # es) w tr =
     (case step a w of Inl p \<Rightarrow> Panicked (fst p) (snd p) | Inr w' \<Rightarrow> poll ctx addr es w' tr)"
| "poll ctx addr (DoneFires # es) w tr =
     (if ctx_done w ctx then Returned (Some (ErrorString ''canceled'')) w tr es
      else poll ctx addr es w tr)"
| "poll ctx addr (TickFires up # es) w tr =
     (if DialContext w ctx up then Returned None w (tr @ [Dial addr True, Close]) es
      else poll ctx addr es w (tr @ [Dial addr False]))"

text \<open>\<open>defer cancel()\<close>: the closure runs when the function returns.\<close>

fun deferred :: "(world \<Rightarrow> world) \<Rightarrow> outcome \<Rightarrow> outcome" where
  "deferred f (Returned r w tr es) = Returned r (f w) tr es"
| "deferred f (Panicked msg w) = Panicked msg w"
| "deferred f (Polling w tr) = Polling w tr"

text \<open>
  \<^verbatim>\<open>
  func (pfn *proxyFunctions) CheckLive(ctx context.Context, id uint64, addr string) error {
      ctx, cancel := pfn.makeContext(ctx, id)
      defer cancel()
      host, port, err := net.SplitHostPort(addr)
      if err != nil { return err }
      if net.ParseIP(host) == nil { return errors.New("invalid IP") }
      if _, err := strconv.ParseUint(port, 10, 16); err != nil {
          return errors.New("invalid port")
      }
      ... ticker, loop ...
  }
  \<close>
  The panic of \<open>makeContext\<close> happens before \<open>defer cancel()\<close> is reached. The
  local \<open>cancel\<close> is written \<open>c\<close>, as the field of the record has the name.
\<close>

definition CheckLive ::
  "netenv \<Rightarrow> context \<Rightarrow> uint64 \<Rightarrow> string \<Rightarrow> event list \<Rightarrow> world \<Rightarrow> outcome" where
  "CheckLive net ctx0 i addr sched w =
     (case makeContext ctx0 i w of
        Inl p \<Rightarrow> Panicked (fst p) (snd p)
      | Inr (ctx, c, w1) \<Rightarrow>
          deferred (cf c i)
            (case SplitHostPort net addr of
               Inl err \<Rightarrow> Returned (Some (NetAddrError err)) w1 [] sched
             | Inr (host, port) \<Rightarrow>
                 if ParseIP net host = None
                 then Returned (Some (ErrorString ''invalid IP'')) w1 [] sched
                 else (case ParseUint port of
                         Inl e \<Rightarrow> Returned (Some (ErrorString ''invalid port'')) w1 [] sched
                       | Inr n \<Rightarrow> poll ctx addr sched w1 [])))"

subsection \<open>What the specification calls a malformed address\<close>

text \<open>
  The specification's wording for the port, to be compared with \<open>ParseUint\<close>: a
  decimal value fitting in 16 bits, that is, a non-empty string of the digits 0 to 9
  whose value is at most 65535.
\<close>

definition is_digit :: "char \<Rightarrow> bool" where
  "is_digit c = (48 \<le> (of_char c :: nat) \<and> (of_char c :: nat) \<le> 57)"

fun decimal :: "nat \<Rightarrow> string \<Rightarrow> nat" where
  "decimal a [] = a"
| "decimal a (c # cs) = decimal (10 * a + (of_char c - 48)) cs"

definition spec_port_ok :: "string \<Rightarrow> bool" where
  "spec_port_ok s = (s \<noteq> [] \<and> list_all is_digit s \<and> decimal 0 s \<le> 65535)"

definition malformed :: "netenv \<Rightarrow> string \<Rightarrow> bool" where
  "malformed net addr =
     (case SplitHostPort net addr of
        Inl err \<Rightarrow> True
      | Inr (host, port) \<Rightarrow> ParseIP net host = None \<or> \<not> spec_port_ok port)"

text \<open>The errors of the three validation exits of \<open>CheckLive\<close>.\<close>

fun validation_error :: "error \<Rightarrow> bool" where
  "validation_error (NetAddrError e) = True"
| "validation_error (ErrorString m) = (m = ''invalid IP'' \<or> m = ''invalid port'')"

text \<open>
  A table of the library's answers on the four addresses of the examples below:
  \<open>127.0.0.1:80\<close> splits and its host parses (to the 16-byte form of the address),
  \<open>127.0.0.1:99999\<close> and \<open>not-an-ip:80\<close> split, \<open>127.0.0.1\<close> has no port.
  The examples use no other address.
\<close>

definition example_net :: netenv where
  "example_net =
     \<lparr>SplitHostPort = (\<lambda>a.
         if a = ''127.0.0.1:80'' then Inr (''127.0.0.1'', ''80'')
         else if a = ''127.0.0.1:99999'' then Inr (''127.0.0.1'', ''99999'')
         else if a = ''not-an-ip:80'' then Inr (''not-an-ip'', ''80'')
         else Inl (AddrError ''missing port in address'' a)),
      ParseIP = (\<lambda>h.
         if h = ''127.0.0.1''
         then Some [0, 0, 0, 0, 0, 0, 0, 0, 0, 0, 255, 255, 127, 0, 0, 1]
         else None)\<rparr>"

section \<open>Properties of the registry\<close>

subsection \<open>How the operations act on the fields\<close>

lemma registry_set_cancel [simp]: "registry (set_cancel m w) k = go_index m k"
  by (simp add: registry_def set_cancel_def)

lemma cancelled_set_cancel [simp]: "cancelled (set_cancel m w) = cancelled w"
  by (simp add: set_cancel_def)

lemma next_token_set_cancel [simp]: "next_token (set_cancel m w) = next_token w"
  by (simp add: set_cancel_def)

lemma cancel_set_cancel [simp]: "cancel (pfn (set_cancel m w)) = m"
  by (simp add: set_cancel_def)

lemma registry_invoke [simp]: "registry (invoke c w) k = registry w k"
  by (simp add: registry_def invoke_def)

lemma pfn_invoke [simp]: "pfn (invoke c w) = pfn w"
  by (simp add: invoke_def)

lemma cancelled_invoke [simp]: "cancelled (invoke c w) = insert c (cancelled w)"
  by (simp add: invoke_def)

lemma next_token_invoke [simp]: "next_token (invoke c w) = next_token w"
  by (simp add: invoke_def)

lemma go_index_delete [simp]:
  "go_index (go_delete m k) k' = (if k' = k then None else go_index m k')"
  by (simp add: go_index_def go_delete_def split: option.splits)

lemma registry_cf: "registry (cf c i w) k = (if k = i then None else registry w k)"
  by (simp add: cf_def Let_def) (simp add: registry_def)

lemma cancelled_cf: "cancelled (cf c i w) = insert c (cancelled w)"
  by (simp add: cf_def Let_def)

lemma next_token_cf: "next_token (cf c i w) = next_token w"
  by (simp add: cf_def Let_def)

lemma Cancel_absent: "registry w i = None \<Longrightarrow> Cancel i w = w"
  by (simp add: Cancel_def registry_def)

lemma Cancel_present: "registry w i = Some c \<Longrightarrow> Cancel i w = cf c i w"
  by (simp add: Cancel_def registry_def cf_def)

lemma makeContext_dup:
  "registry w i = Some h \<Longrightarrow>
   makeContext b i w = Inl (''duplicate id'', w\<lparr>next_token := Suc (next_token w)\<rparr>)"
  by (auto simp add: makeContext_def Let_def registry_def go_index_def split: option.splits)

lemma makeContext_fresh:
  "registry w i = None \<Longrightarrow>
   \<exists>w'. makeContext b i w = Inr (next_token w # b, next_token w, w') \<and>
        registry w' = (registry w)(i \<mapsto> next_token w) \<and>
        cancelled w' = cancelled w \<and> next_token w' = Suc (next_token w)"
  by (auto simp add: makeContext_def Let_def registry_def go_index_def go_assign_def
      set_cancel_def fun_eq_iff split: option.splits)

lemma registry_next_token [simp]: "registry (w\<lparr>next_token := n\<rparr>) = registry w"
  by (simp add: registry_def fun_eq_iff)

subsection \<open>The done callback\<close>

text \<open>
  Claim C1, as the code has it: the done callback returned by \<open>makeContext\<close> cancels
  the scope of its own operation and deletes the registry entry of its id, whichever
  handle that entry holds when the callback runs; the entries of all other ids stay as
  they are, and no scope but its own is cancelled.
\<close>

theorem cf_deletes_by_id:
  "registry (cf c i w) k = (if k = i then None else registry w k) \<and>
   cancelled (cf c i w) = insert c (cancelled w)"
  by (simp add: registry_cf cancelled_cf)

text \<open>At a registry holding ids 1 and 2: the callback of id 1 leaves id 2 alone.\<close>

theorem cf_deletes_by_id_witness:
  "registry (cf 0 1 \<lparr>pfn = \<lparr>cancel = Some [1 \<mapsto> 1, 2 \<mapsto> 5]\<rparr>, cancelled = {}, next_token = 6\<rparr>) 1 = None \<and>
   registry (cf 0 1 \<lparr>pfn = \<lparr>cancel = Some [1 \<mapsto> 1, 2 \<mapsto> 5]\<rparr>, cancelled = {}, next_token = 6\<rparr>) 2 = Some 5 \<and>
   cancelled (cf 0 1 \<lparr>pfn = \<lparr>cancel = Some [1 \<mapsto> 1, 2 \<mapsto> 5]\<rparr>, cancelled = {}, next_token = 6\<rparr>) = {0}"
  using cf_deletes_by_id [of 0 1 "\<lparr>pfn = \<lparr>cancel = Some [1 \<mapsto> 1, 2 \<mapsto> 5]\<rparr>, cancelled = {}, next_token = 6\<rparr>" 1]
    cf_deletes_by_id [of 0 1 "\<lparr>pfn = \<lparr>cancel = Some [1 \<mapsto> 1, 2 \<mapsto> 5]\<rparr>, cancelled = {}, next_token = 6\<rparr>" 2]
  by (simp add: registry_def go_index_def)

text \<open>
  Claim C1 as stated fails. An operation registers id 1 and gets handle 0; \<open>Cancel 1\<close>
  removes the entry while the operation is still on its way out; a later operation
  registers id 1 again and gets handle 1; the deferred callback of the first operation
  then deletes the entry, although it holds handle 1, not handle 0.
\<close>

theorem done_removes_later_handle:
  "makeContext [] 1 zero_world =
     Inr ([0], 0, \<lparr>pfn = \<lparr>cancel = Some [1 \<mapsto> 0]\<rparr>, cancelled = {}, next_token = 1\<rparr>) \<and>
   Cancel 1 \<lparr>pfn = \<lparr>cancel = Some [1 \<mapsto> 0]\<rparr>, cancelled = {}, next_token = 1\<rparr> =
     \<lparr>pfn = \<lparr>cancel = Some Map.empty\<rparr>, cancelled = {0}, next_token = 1\<rparr> \<and>
   makeContext [] 1 \<lparr>pfn = \<lparr>cancel = Some Map.empty\<rparr>, cancelled = {0}, next_token = 1\<rparr> =
     Inr ([1], 1, \<lparr>pfn = \<lparr>cancel = Some [1 \<mapsto> 1]\<rparr>, cancelled = {0}, next_token = 2\<rparr>) \<and>
   cf 0 1 \<lparr>pfn = \<lparr>cancel = Some [1 \<mapsto> 1]\<rparr>, cancelled = {0}, next_token = 2\<rparr> =
     \<lparr>pfn = \<lparr>cancel = Some Map.empty\<rparr>, cancelled = {0}, next_token = 2\<rparr> \<and>
   registry \<lparr>pfn = \<lparr>cancel = Some [1 \<mapsto> 1]\<rparr>, cancelled = {0}, next_token = 2\<rparr> 1 = Some 1 \<and>
   registry (cf 0 1 \<lparr>pfn = \<lparr>cancel = Some [1 \<mapsto> 1]\<rparr>, cancelled = {0}, next_token = 2\<rparr>) 1 = None"
  by (simp add: makeContext_def zero_world_def Cancel_def cf_def Let_def go_index_def
      go_assign_def go_delete_def set_cancel_def invoke_def registry_def)

subsection \<open>Registration\<close>

text \<open>
  Claim C2: when the id already maps to a handle, \<open>makeContext\<close> panics with
  "duplicate id" and the registry still holds the handle it held; a registration that
  returns found the id absent and leaves exactly the new handle under it, so an id never
  has more than one handle.
\<close>

theorem makeContext_duplicate_panics:
  "(registry w i \<noteq> None \<longrightarrow>
      (\<exists>w'. makeContext b i w = Inl (''duplicate id'', w') \<and> registry w' = registry w
            \<and> cancelled w' = cancelled w)) \<and>
   (\<forall>ctx c w'. makeContext b i w = Inr (ctx, c, w') \<longrightarrow>
      registry w i = None \<and> registry w' = (registry w)(i \<mapsto> c))"
proof (cases "registry w i")
  case None
  from makeContext_fresh [OF None, of b] show ?thesis using None by auto
next
  case (Some h)
  from makeContext_dup [OF Some, of b] show ?thesis using Some by simp
qed

text \<open>Registering id 7 twice: the first call returns, the second panics.\<close>

theorem makeContext_duplicate_panics_witness:
  "registry \<lparr>pfn = \<lparr>cancel = Some [7 \<mapsto> 0]\<rparr>, cancelled = {}, next_token = 1\<rparr> 7 \<noteq> None \<and>
   (\<exists>w'. makeContext [] 7 \<lparr>pfn = \<lparr>cancel = Some [7 \<mapsto> 0]\<rparr>, cancelled = {}, next_token = 1\<rparr>
            = Inl (''duplicate id'', w') \<and> registry w' 7 = Some 0) \<and>
   makeContext [] 7 zero_world =
     Inr ([0], 0, \<lparr>pfn = \<lparr>cancel = Some [7 \<mapsto> 0]\<rparr>, cancelled = {}, next_token = 1\<rparr>) \<and>
   registry zero_world 7 = None"
proof -
  let ?W = "\<lparr>pfn = \<lparr>cancel = Some [7 \<mapsto> 0]\<rparr>, cancelled = {}, next_token = 1\<rparr>"
  have r: "registry ?W 7 = Some 0" by (simp add: registry_def go_index_def)
  have m: "makeContext [] 7 zero_world = Inr ([0], 0, ?W)"
    by (simp add: makeContext_def zero_world_def Let_def go_index_def go_assign_def set_cancel_def)
  from makeContext_duplicate_panics [of ?W 7 "[]"] r
  have 1: "\<exists>w'. makeContext [] 7 ?W = Inl (''duplicate id'', w') \<and> registry w' 7 = Some 0"
    by auto
  from makeContext_duplicate_panics [of zero_world 7 "[]"] m
  have 2: "registry zero_world 7 = None" by blast
  show ?thesis using r 1 2 m by simp
qed

subsection \<open>Cancel\<close>

text \<open>
  Claim C5: \<open>Cancel\<close> on an id without an entry returns the state as it was; on an
  id with an entry it invokes the entry's handle and removes the entry, and touches no
  other id.
\<close>

theorem Cancel_unknown_noop:
  "(registry w i = None \<longrightarrow> Cancel i w = w) \<and>
   (\<forall>c. registry w i = Some c \<longrightarrow>
      registry (Cancel i w) i = None \<and> cancelled (Cancel i w) = insert c (cancelled w) \<and>
      (\<forall>k. k \<noteq> i \<longrightarrow> registry (Cancel i w) k = registry w k))"
  by (auto simp: Cancel_absent Cancel_present registry_cf cancelled_cf)

text \<open>On the zero value, and on a registry holding ids 3 and 4.\<close>

theorem Cancel_unknown_noop_witness:
  "registry zero_world 3 = None \<and> Cancel 3 zero_world = zero_world \<and>
   registry \<lparr>pfn = \<lparr>cancel = Some [3 \<mapsto> 0, 4 \<mapsto> 1]\<rparr>, cancelled = {}, next_token = 2\<rparr> 3 = Some 0 \<and>
   registry (Cancel 3 \<lparr>pfn = \<lparr>cancel = Some [3 \<mapsto> 0, 4 \<mapsto> 1]\<rparr>, cancelled = {}, next_token = 2\<rparr>) 3 = None \<and>
   cancelled (Cancel 3 \<lparr>pfn = \<lparr>cancel = Some [3 \<mapsto> 0, 4 \<mapsto> 1]\<rparr>, cancelled = {}, next_token = 2\<rparr>) = {0} \<and>
   registry (Cancel 3 \<lparr>pfn = \<lparr>cancel = Some [3 \<mapsto> 0, 4 \<mapsto> 1]\<rparr>, cancelled = {}, next_token = 2\<rparr>) 4 = Some 1"
proof -
  let ?W = "\<lparr>pfn = \<lparr>cancel = Some [3 \<mapsto> 0, 4 \<mapsto> 1]\<rparr>, cancelled = {}, next_token = 2\<rparr>"
  have z: "registry zero_world 3 = None" by (simp add: registry_def zero_world_def go_index_def)
  have r: "registry ?W 3 = Some 0" by (simp add: registry_def go_index_def)
  have r4: "registry ?W 4 = Some 1" by (simp add: registry_def go_index_def)
  from Cancel_unknown_noop [of zero_world 3] z have 1: "Cancel 3 zero_world = zero_world" by blast
  from Cancel_unknown_noop [of ?W 3] r
  have 2: "registry (Cancel 3 ?W) 3 = None \<and> cancelled (Cancel 3 ?W) = insert 0 (cancelled ?W) \<and>
      (\<forall>k. k \<noteq> 3 \<longrightarrow> registry (Cancel 3 ?W) k = registry ?W k)" by blast
  then have "registry (Cancel 3 ?W) 4 = registry ?W 4" by simp
  with z r r4 1 2 show ?thesis by simp
qed

subsection \<open>The zero value\<close>

text \<open>
  Claim C10: with a nil map, \<open>Cancel\<close> changes nothing and does not panic, and
  \<open>makeContext\<close> allocates the map and registers the id, without the panic of an
  assignment to a nil map.
\<close>

theorem zero_value_ready:
  "cancel (pfn w) = None \<Longrightarrow>
   Cancel i w = w \<and>
   (\<exists>w'. makeContext b i w = Inr (next_token w # b, next_token w, w') \<and>
         cancel (pfn w') = Some [i \<mapsto> next_token w])"
  by (simp add: Cancel_def makeContext_def Let_def go_index_def go_assign_def)

text \<open>The zero value itself.\<close>

theorem zero_value_ready_witness:
  "cancel (pfn zero_world) = None \<and> Cancel 5 zero_world = zero_world \<and>
   (\<exists>w'. makeContext [] 5 zero_world = Inr ([0], 0, w') \<and> cancel (pfn w') = Some [5 \<mapsto> 0])"
proof -
  have z: "cancel (pfn zero_world) = None" by (simp add: zero_world_def)
  have n: "next_token zero_world = 0" by (simp add: zero_world_def)
  from zero_value_ready [OF z, of 5 "[]"] z n show ?thesis by simp
qed

section \<open>Properties of the port parser\<close>

text \<open>
  The digit loop against the specification's wording. A byte that is no decimal digit
  ends the loop with a syntax error whatever the accumulator; on a digit the accumulator
  (at most 65535, so far from \<open>cutoff\<close> and from wrapping) moves to ten times itself
  plus the digit, or the loop ends with a range error.
\<close>

lemma unat_byte: "unat (byte ch) = of_char ch"
proof -
  have "(of_char ch :: nat) < 256" by (cases ch) (simp)
  then show ?thesis by (simp add: byte_def unat_of_nat)
qed

lemma digit_of_digit:
  assumes "is_digit ch"
  shows "\<exists>d. digit_of (byte ch) = Some d \<and> unat d = of_char ch - 48 \<and> d < 10"
proof -
  from assms have a: "48 \<le> unat (byte ch)" "unat (byte ch) \<le> 57"
    by (simp_all add: is_digit_def unat_byte)
  then have b: "48 \<le> byte ch" "byte ch \<le> 57"
    by (simp_all add: word_le_nat_alt)
  have c: "unat (byte ch - 48) = unat (byte ch) - 48"
    using b by (simp add: unat_sub)
  have "byte ch - 48 < 10" using a c by (simp add: word_less_nat_alt)
  with b c show ?thesis by (simp add: digit_of_def unat_byte)
qed

lemma digit_of_nondigit:
  assumes "\<not> is_digit ch" "digit_of (byte ch) = Some d"
  shows "10 \<le> d"
proof -
  from assms(1) have nb: "\<not> (48 \<le> byte ch \<and> byte ch \<le> 57)"
    by (simp add: is_digit_def word_le_nat_alt unat_byte)
  with assms(2) have l: "97 \<le> lower (byte ch)" "lower (byte ch) \<le> 122"
    and d: "d = lower (byte ch) - 97 + 10"
    by (auto simp: digit_of_def split: if_splits)
  from l have "unat d = unat (lower (byte ch)) - 87" unfolding d
    by unat_arith
  with l show ?thesis by (simp add: word_le_nat_alt)
qed

lemma cutoff_val: "unat cutoff = 1844674407370955162"
  by (simp add: cutoff_def)

lemma maxVal_val: "unat maxVal = 65535"
  by (simp add: maxVal_def)

lemma decimal_mono: "a \<le> decimal a cs"
proof (induction cs arbitrary: a)
  case Nil
  show ?case by simp
next
  case (Cons c cs)
  have "a \<le> 10 * a + (of_char c - 48)" by simp
  also have "\<dots> \<le> decimal (10 * a + (of_char c - 48)) cs" by (rule Cons.IH)
  finally show ?case by simp
qed

lemma parse_digits_nondigit:
  assumes "\<not> is_digit ch"
  shows "parse_digits n (byte ch # cs) = Inl ErrSyntax"
proof (cases "digit_of (byte ch)")
  case None
  then show ?thesis by (simp add: parse_digits.simps)
next
  case (Some d)
  with assms have "10 \<le> d" by (simp add: digit_of_nondigit)
  with Some show ?thesis by (simp add: parse_digits.simps)
qed

lemma parse_digits_digit:
  assumes "is_digit ch" "unat n \<le> 65535"
  shows "\<exists>n'. unat n' = unat n * 10 + (of_char ch - 48) \<and>
           parse_digits n (byte ch # cs) =
             (if unat n' \<le> 65535 then parse_digits n' cs else Inl ErrRange)"
proof -
  from digit_of_digit [OF assms(1)] obtain d where
    d: "digit_of (byte ch) = Some d" "unat d = of_char ch - 48" "d < 10" by blast
  define n' where "n' = n * 10 + ucast d"
  have d9: "unat d < 10" using d(3) by (simp add: word_less_nat_alt)
  have nc: "\<not> cutoff \<le> n" using assms(2) by (simp add: word_le_nat_alt cutoff_val)
  have ud: "unat (ucast d :: uint64) = unat d"
    using d9 by (simp add: unsigned_ucast_eq take_bit_nat_eq_self)
  have m: "unat (n * 10) = unat n * 10"
    using assms(2) by (simp add: unat_word_ariths)
  have a: "unat n' = unat n * 10 + unat d"
    unfolding n'_def using assms(2) d9 by (simp add: unat_word_ariths m ud)
  have lt: "\<not> n' < n * 10" by (simp add: word_less_nat_alt a m)
  have nd: "\<not> 10 \<le> d" using d(3) by (simp add: not_le)
  have mv: "maxVal < n' \<longleftrightarrow> \<not> unat n' \<le> 65535"
    by (simp add: word_less_nat_alt maxVal_val not_le)
  have step: "parse_digits n (byte ch # cs) =
      (if maxVal < n' then Inl ErrRange else parse_digits n' cs)"
    using d(1) nd nc lt by (simp add: Let_def n'_def parse_digits.simps)
  have "parse_digits n (byte ch # cs) =
      (if unat n' \<le> 65535 then parse_digits n' cs else Inl ErrRange)"
    unfolding step mv by simp
  with a d(2) show ?thesis by (intro exI [of _ n']) simp
qed

lemma parse_digits_spec:
  "list_all is_digit s \<Longrightarrow> unat n \<le> 65535 \<Longrightarrow>
   parse_digits n (map byte s) =
     (if decimal (unat n) s \<le> 65535 then Inr (of_nat (decimal (unat n) s))
      else Inl ErrRange)"
proof (induction s arbitrary: n)
  case Nil
  then show ?case by simp
next
  case (Cons ch s)
  from Cons.prems(1) have dg: "is_digit ch" and ds: "list_all is_digit s" by simp_all
  from parse_digits_digit [OF dg Cons.prems(2), of "map byte s"] obtain n' where
    n': "unat n' = unat n * 10 + (of_char ch - 48)"
    and st: "parse_digits n (byte ch # map byte s) =
           (if unat n' \<le> 65535 then parse_digits n' (map byte s) else Inl ErrRange)"
    by blast
  have dec: "decimal (unat n) (ch # s) = decimal (unat n') s"
    by (simp add: n' mult.commute)
  show ?case
  proof (cases "unat n' \<le> 65535")
    case True
    have "parse_digits n (map byte (ch # s)) = parse_digits n' (map byte s)"
      using st True by simp
    also have "\<dots> = (if decimal (unat n') s \<le> 65535
        then Inr (of_nat (decimal (unat n') s)) else Inl ErrRange)"
      by (rule Cons.IH [OF ds True])
    finally show ?thesis unfolding dec .
  next
    case False
    have "unat n' \<le> decimal (unat n') s" by (rule decimal_mono)
    with False have big: "\<not> decimal (unat n') s \<le> 65535" by simp
    have "parse_digits n (map byte (ch # s)) = Inl ErrRange"
      using st False by simp
    with big show ?thesis unfolding dec by simp
  qed
qed

lemma parse_digits_syntax:
  "\<not> list_all is_digit s \<Longrightarrow> unat n \<le> 65535 \<Longrightarrow> \<exists>e. parse_digits n (map byte s) = Inl e"
proof (induction s arbitrary: n)
  case Nil
  then show ?case by simp
next
  case (Cons ch s)
  show ?case
  proof (cases "is_digit ch")
    case False
    then show ?thesis by (simp add: parse_digits_nondigit)
  next
    case True
    from parse_digits_digit [OF True Cons.prems(2), of "map byte s"] obtain n' where
      st: "parse_digits n (byte ch # map byte s) =
             (if unat n' \<le> 65535 then parse_digits n' (map byte s) else Inl ErrRange)"
      by blast
    from True Cons.prems(1) have "\<not> list_all is_digit s" by simp
    from Cons.IH [OF this] st show ?thesis by auto
  qed
qed

lemma ParseUint_spec:
  "ParseUint s = Inr n \<longleftrightarrow> spec_port_ok s \<and> n = of_nat (decimal 0 s)"
proof (cases "s = []")
  case True
  then show ?thesis by (simp add: ParseUint_def spec_port_ok_def)
next
  case ne: False
  show ?thesis
  proof (cases "list_all is_digit s")
    case False
    from parse_digits_syntax [OF False, of 0] obtain e where
      "parse_digits 0 (map byte s) = Inl e" by auto
    with ne False show ?thesis by (simp add: ParseUint_def spec_port_ok_def)
  next
    case True
    from parse_digits_spec [OF True, of 0]
    have "parse_digits 0 (map byte s) =
       (if decimal 0 s \<le> 65535 then Inr (of_nat (decimal 0 s)) else Inl ErrRange)"
      by simp
    with ne True show ?thesis by (auto simp: ParseUint_def spec_port_ok_def)
  qed
qed

section \<open>Properties of the prober\<close>

subsection \<open>The three ways through CheckLive\<close>

lemma deferred_Returned:
  "deferred f X = Returned r w' tr rest \<longleftrightarrow> (\<exists>w2. X = Returned r w2 tr rest \<and> w' = f w2)"
  by (cases X) auto

lemma deferred_Polling: "deferred f X = Polling w tr \<longleftrightarrow> X = Polling w tr"
  by (cases X) auto

lemma malformed_iff:
  "malformed net addr \<longleftrightarrow>
     (\<exists>e. SplitHostPort net addr = Inl e) \<or>
     (\<exists>host port. SplitHostPort net addr = Inr (host, port) \<and>
        (ParseIP net host = None \<or> (\<exists>e. ParseUint port = Inl e)))"
proof -
  have p: "\<And>port. (\<exists>e. ParseUint port = Inl e) \<longleftrightarrow> \<not> spec_port_ok port"
  proof -
    fix port
    show "(\<exists>e. ParseUint port = Inl e) \<longleftrightarrow> \<not> spec_port_ok port"
      using ParseUint_spec [of port] by (cases "ParseUint port") auto
  qed
  show ?thesis
    by (cases "SplitHostPort net addr") (auto simp: malformed_def p)
qed

lemma CheckLive_dup:
  "registry w i = Some h \<Longrightarrow>
   CheckLive net b i addr sched w = Panicked ''duplicate id'' (w\<lparr>next_token := Suc (next_token w)\<rparr>)"
  by (simp add: CheckLive_def makeContext_dup)

lemma CheckLive_fresh:
  assumes "registry w i = None"
  shows "\<exists>w1. makeContext b i w = Inr (next_token w # b, next_token w, w1) \<and>
     registry w1 = (registry w)(i \<mapsto> next_token w) \<and> cancelled w1 = cancelled w \<and>
     CheckLive net b i addr sched w =
       deferred (cf (next_token w) i)
         (case SplitHostPort net addr of
            Inl err \<Rightarrow> Returned (Some (NetAddrError err)) w1 [] sched
          | Inr (host, port) \<Rightarrow>
              if ParseIP net host = None
              then Returned (Some (ErrorString ''invalid IP'')) w1 [] sched
              else if \<not> spec_port_ok port
              then Returned (Some (ErrorString ''invalid port'')) w1 [] sched
              else poll (next_token w # b) addr sched w1 [])"
proof -
  from makeContext_fresh [OF assms, of b] obtain w1 where
    m: "makeContext b i w = Inr (next_token w # b, next_token w, w1)"
    and r: "registry w1 = (registry w)(i \<mapsto> next_token w)" "cancelled w1 = cancelled w"
    by blast
  have p: "\<And>port. (case ParseUint port of
        Inl e \<Rightarrow> Returned (Some (ErrorString ''invalid port'')) w1 [] sched
      | Inr n \<Rightarrow> poll (next_token w # b) addr sched w1 []) =
      (if \<not> spec_port_ok port then Returned (Some (ErrorString ''invalid port'')) w1 [] sched
       else poll (next_token w # b) addr sched w1 [])"
  proof -
    fix port
    show "(case ParseUint port of
        Inl e \<Rightarrow> Returned (Some (ErrorString ''invalid port'')) w1 [] sched
      | Inr n \<Rightarrow> poll (next_token w # b) addr sched w1 []) =
      (if \<not> spec_port_ok port then Returned (Some (ErrorString ''invalid port'')) w1 [] sched
       else poll (next_token w # b) addr sched w1 [])"
      using ParseUint_spec [of port] by (cases "ParseUint port") auto
  qed
  have "CheckLive net b i addr sched w =
       deferred (cf (next_token w) i)
         (case SplitHostPort net addr of
            Inl err \<Rightarrow> Returned (Some (NetAddrError err)) w1 [] sched
          | Inr (host, port) \<Rightarrow>
              if ParseIP net host = None
              then Returned (Some (ErrorString ''invalid IP'')) w1 [] sched
              else if \<not> spec_port_ok port
              then Returned (Some (ErrorString ''invalid port'')) w1 [] sched
              else poll (next_token w # b) addr sched w1 [])"
  proof (cases "SplitHostPort net addr")
    case (Inl err)
    then show ?thesis by (simp add: CheckLive_def m)
  next
    case (Inr hp)
    obtain host port where hp: "hp = (host, port)" by (cases hp)
    show ?thesis
      by (cases "ParseIP net host") (simp_all add: CheckLive_def m Inr hp p)
  qed
  with m r show ?thesis by blast
qed

lemma CheckLive_malformed:
  assumes "registry w i = None" "malformed net addr"
  shows "\<exists>e w1. validation_error e \<and>
     makeContext b i w = Inr (next_token w # b, next_token w, w1) \<and>
     registry w1 i = Some (next_token w) \<and>
     (\<forall>sched. CheckLive net b i addr sched w = Returned (Some e) (cf (next_token w) i w1) [] sched)"
proof -
  from makeContext_fresh [OF assms(1), of b] obtain w1 where
    m: "makeContext b i w = Inr (next_token w # b, next_token w, w1)"
    and r: "registry w1 = (registry w)(i \<mapsto> next_token w)"
    by blast
  have r1: "registry w1 i = Some (next_token w)" by (simp add: r)
  have c: "\<And>sched. \<exists>w1'. makeContext b i w = Inr (next_token w # b, next_token w, w1') \<and>
     CheckLive net b i addr sched w =
       deferred (cf (next_token w) i)
         (case SplitHostPort net addr of
            Inl err \<Rightarrow> Returned (Some (NetAddrError err)) w1' [] sched
          | Inr (host, port) \<Rightarrow>
              if ParseIP net host = None
              then Returned (Some (ErrorString ''invalid IP'')) w1' [] sched
              else if \<not> spec_port_ok port
              then Returned (Some (ErrorString ''invalid port'')) w1' [] sched
              else poll (next_token w # b) addr sched w1' [])"
    using CheckLive_fresh [OF assms(1), of b net addr] by blast
  have c1: "\<And>sched. CheckLive net b i addr sched w =
       deferred (cf (next_token w) i)
         (case SplitHostPort net addr of
            Inl err \<Rightarrow> Returned (Some (NetAddrError err)) w1 [] sched
          | Inr (host, port) \<Rightarrow>
              if ParseIP net host = None
              then Returned (Some (ErrorString ''invalid IP'')) w1 [] sched
              else if \<not> spec_port_ok port
              then Returned (Some (ErrorString ''invalid port'')) w1 [] sched
              else poll (next_token w # b) addr sched w1 [])"
    using c m by fastforce
  show ?thesis
  proof (cases "SplitHostPort net addr")
    case (Inl err)
    have "validation_error (NetAddrError err)" by simp
    moreover have "\<forall>sched. CheckLive net b i addr sched w =
        Returned (Some (NetAddrError err)) (cf (next_token w) i w1) [] sched"
      by (simp add: c1 Inl)
    ultimately show ?thesis using m r1 by blast
  next
    case (Inr hp)
    obtain host port where hp: "hp = (host, port)" by (cases hp)
    show ?thesis
    proof (cases "ParseIP net host")
      case None
      have "validation_error (ErrorString ''invalid IP'')" by simp
      moreover have "\<forall>sched. CheckLive net b i addr sched w =
          Returned (Some (ErrorString ''invalid IP'')) (cf (next_token w) i w1) [] sched"
        by (simp add: c1 Inr hp None)
      ultimately show ?thesis using m r1 by blast
    next
      case (Some ip)
      with assms(2) Inr hp have np: "\<not> spec_port_ok port" by (simp add: malformed_def)
      have "validation_error (ErrorString ''invalid port'')" by simp
      moreover have "\<forall>sched. CheckLive net b i addr sched w =
          Returned (Some (ErrorString ''invalid port'')) (cf (next_token w) i w1) [] sched"
        by (simp add: c1 Inr hp Some np)
      ultimately show ?thesis using m r1 by blast
    qed
  qed
qed

lemma CheckLive_wellformed:
  assumes "registry w i = None" "\<not> malformed net addr"
  shows "\<exists>w1. makeContext b i w = Inr (next_token w # b, next_token w, w1) \<and>
     registry w1 = (registry w)(i \<mapsto> next_token w) \<and> cancelled w1 = cancelled w \<and>
     (\<forall>sched. CheckLive net b i addr sched w =
        deferred (cf (next_token w) i) (poll (next_token w # b) addr sched w1 []))"
proof -
  from makeContext_fresh [OF assms(1), of b] obtain w1 where
    m: "makeContext b i w = Inr (next_token w # b, next_token w, w1)"
    and r: "registry w1 = (registry w)(i \<mapsto> next_token w)" "cancelled w1 = cancelled w"
    by blast
  from assms(2) obtain host port ip where
    s: "SplitHostPort net addr = Inr (host, port)" "ParseIP net host = Some ip" "spec_port_ok port"
    by (auto simp: malformed_def split: sum.splits)
  have "\<And>sched. CheckLive net b i addr sched w =
        deferred (cf (next_token w) i) (poll (next_token w # b) addr sched w1 [])"
    using CheckLive_fresh [OF assms(1), of b net addr] m s by fastforce
  with m r show ?thesis by blast
qed

lemma CheckLive_cases:
  "(\<exists>h. registry w i = Some h \<and>
      (\<forall>sched. CheckLive net b i addr sched w =
         Panicked ''duplicate id'' (w\<lparr>next_token := Suc (next_token w)\<rparr>))) \<or>
   (registry w i = None \<and> malformed net addr \<and>
      (\<exists>e w1. validation_error e \<and>
         makeContext b i w = Inr (next_token w # b, next_token w, w1) \<and>
         registry w1 i = Some (next_token w) \<and>
         (\<forall>sched. CheckLive net b i addr sched w =
            Returned (Some e) (cf (next_token w) i w1) [] sched))) \<or>
   (registry w i = None \<and> \<not> malformed net addr \<and>
      (\<exists>w1. makeContext b i w = Inr (next_token w # b, next_token w, w1) \<and>
         registry w1 = (registry w)(i \<mapsto> next_token w) \<and> cancelled w1 = cancelled w \<and>
         (\<forall>sched. CheckLive net b i addr sched w =
            deferred (cf (next_token w) i) (poll (next_token w # b) addr sched w1 []))))"
proof (cases "registry w i")
  case (Some h)
  then show ?thesis by (simp add: CheckLive_dup)
next
  case None
  show ?thesis
  proof (cases "malformed net addr")
    case True
    from CheckLive_malformed [OF None True, of b] None True show ?thesis by blast
  next
    case False
    from CheckLive_wellformed [OF None False, of b] None False show ?thesis by blast
  qed
qed

subsection \<open>The polling loop\<close>

lemma poll_append:
  "poll ctx addr pre w tr = Polling w' tr' \<Longrightarrow>
   poll ctx addr (pre @ es) w tr = poll ctx addr es w' tr'"
proof (induction pre arbitrary: w tr)
  case Nil
  then show ?case by simp
next
  case (Cons e pre)
  show ?case
  proof (cases e)
    case (Other a)
    with Cons.prems obtain w2 where s: "step a w = Inr w2"
      and p: "poll ctx addr pre w2 tr = Polling w' tr'"
      by (auto split: sum.splits)
    from Cons.IH [OF p] s Other show ?thesis by simp
  next
    case DoneFires
    with Cons.prems have d: "\<not> ctx_done w ctx" and p: "poll ctx addr pre w tr = Polling w' tr'"
      by (auto split: if_splits)
    from Cons.IH [OF p] d DoneFires show ?thesis by simp
  next
    case (TickFires up)
    with Cons.prems have d: "\<not> DialContext w ctx up"
      and p: "poll ctx addr pre w (tr @ [Dial addr False]) = Polling w' tr'"
      by (auto split: if_splits)
    from Cons.IH [OF p] d TickFires show ?thesis by simp
  qed
qed

lemma cancelled_step_mono: "step a w = Inr w' \<Longrightarrow> cancelled w \<subseteq> cancelled w'"
proof (cases a)
  case (CallCancel i)
  assume "step a w = Inr w'"
  with CallCancel have w': "w' = Cancel i w" by simp
  show ?thesis
  proof (cases "registry w i")
    case None
    then show ?thesis by (simp add: w' Cancel_absent)
  next
    case (Some c)
    then show ?thesis by (auto simp add: w' Cancel_present cancelled_cf)
  qed
next
  case (CallMakeContext b i)
  assume s: "step a w = Inr w'"
  show ?thesis
  proof (cases "registry w i")
    case None
    from makeContext_fresh [OF None, of b] s CallMakeContext show ?thesis by auto
  next
    case (Some h)
    from makeContext_dup [OF Some, of b] s CallMakeContext show ?thesis by simp
  qed
next
  case (CallCf c i)
  assume "step a w = Inr w'"
  with CallCf show ?thesis by (auto simp: cancelled_cf)
next
  case (CallCancelFunc c)
  assume "step a w = Inr w'"
  with CallCancelFunc show ?thesis by auto
qed

lemma ctx_done_mono: "cancelled w \<subseteq> cancelled w' \<Longrightarrow> ctx_done w ctx \<Longrightarrow> ctx_done w' ctx"
  by (auto simp: ctx_done_def)

lemma poll_after_done:
  "ctx_done w ctx \<Longrightarrow> poll ctx addr es w tr = Returned r w' tr' rest \<Longrightarrow>
   r = Some (ErrorString ''canceled'')"
proof (induction es arbitrary: w tr)
  case Nil
  then show ?case by simp
next
  case (Cons e es)
  show ?case
  proof (cases e)
    case (Other a)
    with Cons.prems(2) obtain w2 where s: "step a w = Inr w2"
      and p: "poll ctx addr es w2 tr = Returned r w' tr' rest"
      by (auto split: sum.splits)
    from cancelled_step_mono [OF s] Cons.prems(1) have "ctx_done w2 ctx"
      by (rule ctx_done_mono)
    from Cons.IH [OF this p] show ?thesis .
  next
    case DoneFires
    with Cons.prems show ?thesis by simp
  next
    case (TickFires up)
    with Cons.prems have "poll ctx addr es w (tr @ [Dial addr False]) = Returned r w' tr' rest"
      by (simp add: DialContext_def)
    from Cons.IH [OF Cons.prems(1) this] show ?thesis .
  qed
qed

lemma poll_done_returns:
  "ctx_done w ctx \<Longrightarrow> DoneFires \<in> set es \<Longrightarrow>
   (\<exists>w' tr' rest. poll ctx addr es w tr = Returned (Some (ErrorString ''canceled'')) w' tr' rest) \<or>
   (\<exists>m w'. poll ctx addr es w tr = Panicked m w')"
proof (induction es arbitrary: w tr)
  case Nil
  then show ?case by simp
next
  case (Cons e es)
  show ?case
  proof (cases e)
    case (Other a)
    with Cons.prems(2) have mem: "DoneFires \<in> set es" by simp
    show ?thesis
    proof (cases "step a w")
      case (Inl p)
      with Other show ?thesis by simp
    next
      case (Inr w2)
      from cancelled_step_mono [OF Inr] Cons.prems(1) have "ctx_done w2 ctx"
        by (rule ctx_done_mono)
      from Cons.IH [OF this mem, of tr] Inr Other show ?thesis by simp
    qed
  next
    case DoneFires
    with Cons.prems(1) show ?thesis by simp
  next
    case (TickFires up)
    with Cons.prems(2) have mem: "DoneFires \<in> set es" by simp
    from Cons.IH [OF Cons.prems(1) mem, of "tr @ [Dial addr False]"] Cons.prems(1) TickFires
    show ?thesis by (simp add: DialContext_def)
  qed
qed

lemma poll_trace:
  "poll ctx addr es w tr = Returned r w' tr' rest \<Longrightarrow>
   (r = None \<and> (\<exists>n. tr' = tr @ replicate n (Dial addr False) @ [Dial addr True, Close])) \<or>
   (r = Some (ErrorString ''canceled'') \<and> (\<exists>n. tr' = tr @ replicate n (Dial addr False)))"
proof (induction es arbitrary: w tr)
  case Nil
  then show ?case by simp
next
  case (Cons e es)
  show ?case
  proof (cases e)
    case (Other a)
    with Cons.prems obtain w2 where
      p: "poll ctx addr es w2 tr = Returned r w' tr' rest"
      by (auto split: sum.splits)
    from Cons.IH [OF p] show ?thesis .
  next
    case DoneFires
    show ?thesis
    proof (cases "ctx_done w ctx")
      case True
      with Cons.prems DoneFires have "r = Some (ErrorString ''canceled'')" "tr' = tr" by simp_all
      then have "r = Some (ErrorString ''canceled'') \<and> (\<exists>n. tr' = tr @ replicate n (Dial addr False))"
        by (auto intro: exI [of _ 0])
      then show ?thesis by blast
    next
      case False
      with Cons.prems DoneFires have "poll ctx addr es w tr = Returned r w' tr' rest" by simp
      from Cons.IH [OF this] show ?thesis .
    qed
  next
    case (TickFires up)
    show ?thesis
    proof (cases "DialContext w ctx up")
      case True
      with Cons.prems TickFires have "r = None" "tr' = tr @ [Dial addr True, Close]" by simp_all
      then have "r = None \<and> (\<exists>n. tr' = tr @ replicate n (Dial addr False) @ [Dial addr True, Close])"
        by (auto intro: exI [of _ 0])
      then show ?thesis by blast
    next
      case False
      with Cons.prems TickFires
      have "poll ctx addr es w (tr @ [Dial addr False]) = Returned r w' tr' rest" by simp
      from Cons.IH [OF this] have
        "(r = None \<and> (\<exists>n. tr' = (tr @ [Dial addr False]) @ replicate n (Dial addr False) @ [Dial addr True, Close])) \<or>
         (r = Some (ErrorString ''canceled'') \<and> (\<exists>n. tr' = (tr @ [Dial addr False]) @ replicate n (Dial addr False)))" .
      then show ?thesis
      proof
        assume "r = None \<and> (\<exists>n. tr' = (tr @ [Dial addr False]) @ replicate n (Dial addr False) @ [Dial addr True, Close])"
        then obtain n where "r = None"
          "tr' = tr @ replicate (Suc n) (Dial addr False) @ [Dial addr True, Close]" by auto
        then show ?thesis by blast
      next
        assume "r = Some (ErrorString ''canceled'') \<and> (\<exists>n. tr' = (tr @ [Dial addr False]) @ replicate n (Dial addr False))"
        then obtain n where "r = Some (ErrorString ''canceled'')"
          "tr' = tr @ replicate (Suc n) (Dial addr False)" by auto
        then show ?thesis by blast
      qed
    qed
  qed
qed

subsection \<open>Removing twice\<close>

lemma cf_idem: "cf c i (cf c i w) = cf c i w"
  by (simp add: cf_def Let_def set_cancel_def invoke_def go_delete_def split: option.splits)

lemma Cancel_after_cf: "Cancel i (cf c i w) = cf c i w"
  by (rule Cancel_absent) (simp add: registry_cf)

lemma cf_after_Cancel: "registry w i = Some c \<Longrightarrow> cf c i (Cancel i w) = cf c i w"
  by (simp add: Cancel_present cf_idem)

subsection \<open>A probe of 127.0.0.1:80 on the zero value\<close>

lemma zero_fresh: "registry zero_world i = None"
  by (simp add: registry_def zero_world_def go_index_def)

lemma next_zero: "next_token zero_world = 0"
  by (simp add: zero_world_def)

lemma makeContext_zero:
  "makeContext [] 1 zero_world =
     Inr ([0], 0, \<lparr>pfn = \<lparr>cancel = Some [1 \<mapsto> 0]\<rparr>, cancelled = {}, next_token = 1\<rparr>)"
  by (simp add: makeContext_def zero_world_def Let_def go_index_def go_assign_def set_cancel_def)

lemma example_valid: "\<not> malformed example_net ''127.0.0.1:80''"
  by (simp add: malformed_def example_net_def spec_port_ok_def is_digit_def)

lemma example_bad_port: "malformed example_net ''127.0.0.1:99999''"
  by (simp add: malformed_def example_net_def spec_port_ok_def is_digit_def)

lemma example_bad_host: "malformed example_net ''not-an-ip:80''"
  by (simp add: malformed_def example_net_def spec_port_ok_def is_digit_def)

lemma example_no_port: "malformed example_net ''127.0.0.1''"
  by (simp add: malformed_def example_net_def)

lemma CheckLive_example:
  "CheckLive example_net [] 1 ''127.0.0.1:80'' sched zero_world =
     deferred (cf 0 1)
       (poll [0] ''127.0.0.1:80'' sched
          \<lparr>pfn = \<lparr>cancel = Some [1 \<mapsto> 0]\<rparr>, cancelled = {}, next_token = 1\<rparr> [])"
  using CheckLive_wellformed [OF zero_fresh example_valid, where i = 1 and b = "[]"]
  by (auto simp: makeContext_zero next_zero)

lemma example_success:
  "CheckLive example_net [] 1 ''127.0.0.1:80'' [TickFires False, TickFires True] zero_world =
     Returned None \<lparr>pfn = \<lparr>cancel = Some Map.empty\<rparr>, cancelled = {0}, next_token = 1\<rparr>
       [Dial ''127.0.0.1:80'' False, Dial ''127.0.0.1:80'' True, Close] []"
  by (simp add: CheckLive_example DialContext_def ctx_done_def cf_def Let_def invoke_def
      set_cancel_def go_delete_def)

lemma example_polling:
  "CheckLive example_net [] 1 ''127.0.0.1:80'' [TickFires False, Other (CallCancel 1)] zero_world =
     Polling \<lparr>pfn = \<lparr>cancel = Some Map.empty\<rparr>, cancelled = {0}, next_token = 1\<rparr>
       [Dial ''127.0.0.1:80'' False]"
  by (simp add: CheckLive_example DialContext_def ctx_done_def Cancel_def Let_def invoke_def
      set_cancel_def go_delete_def go_index_def)

subsection \<open>Cleanup on every exit\<close>

text \<open>
  Claim C3: whenever \<open>CheckLive\<close> returns, by success, by a validation failure or by
  cancellation and under any schedule, the id has no entry in the registry of the state
  it leaves. A second removal is a no-op and not an error: the done callback run twice,
  \<open>Cancel\<close> after the done callback, and the done callback after a \<open>Cancel\<close>
  that found the operation's own handle all give the state of a single done callback.
\<close>

theorem CheckLive_removes_entry:
  "(\<forall>r w' tr rest. CheckLive net b i addr sched w = Returned r w' tr rest \<longrightarrow>
      registry w' i = None) \<and>
   cf c i (cf c i w) = cf c i w \<and> Cancel i (cf c i w) = cf c i w \<and>
   (registry w i = Some c \<longrightarrow> cf c i (Cancel i w) = cf c i w)"
proof -
  have "registry w' i = None" if "CheckLive net b i addr sched w = Returned r w' tr rest"
    for r w' tr rest
    using CheckLive_cases [of w i net b addr] that
    by (auto simp: registry_cf deferred_Returned)
  then show ?thesis
    by (simp add: cf_idem Cancel_after_cf cf_after_Cancel)
qed

text \<open>A probe that succeeds at its second tick, and \<open>Cancel\<close> followed by the done callback.\<close>

theorem CheckLive_removes_entry_witness:
  "CheckLive example_net [] 1 ''127.0.0.1:80'' [TickFires False, TickFires True] zero_world =
     Returned None \<lparr>pfn = \<lparr>cancel = Some Map.empty\<rparr>, cancelled = {0}, next_token = 1\<rparr>
       [Dial ''127.0.0.1:80'' False, Dial ''127.0.0.1:80'' True, Close] [] \<and>
   registry \<lparr>pfn = \<lparr>cancel = Some Map.empty\<rparr>, cancelled = {0}, next_token = 1\<rparr> 1 = None \<and>
   registry \<lparr>pfn = \<lparr>cancel = Some [1 \<mapsto> 0]\<rparr>, cancelled = {}, next_token = 1\<rparr> 1 = Some 0 \<and>
   cf 0 1 (Cancel 1 \<lparr>pfn = \<lparr>cancel = Some [1 \<mapsto> 0]\<rparr>, cancelled = {}, next_token = 1\<rparr>) =
     cf 0 1 \<lparr>pfn = \<lparr>cancel = Some [1 \<mapsto> 0]\<rparr>, cancelled = {}, next_token = 1\<rparr>"
proof -
  let ?W1 = "\<lparr>pfn = \<lparr>cancel = Some [1 \<mapsto> 0]\<rparr>, cancelled = {}, next_token = 1\<rparr>"
  have r: "registry ?W1 1 = Some 0" by (simp add: registry_def go_index_def)
  from CheckLive_removes_entry
    [where net = example_net and b = "[]" and i = 1 and addr = "''127.0.0.1:80''"
       and sched = "[TickFires False, TickFires True]" and w = zero_world and c = 0]
    example_success
  have 1: "registry \<lparr>pfn = \<lparr>cancel = Some Map.empty\<rparr>, cancelled = {0}, next_token = 1\<rparr> 1 = None"
    by blast
  from CheckLive_removes_entry [where i = 1 and w = ?W1 and c = 0] r
  have 2: "cf 0 1 (Cancel 1 ?W1) = cf 0 1 ?W1" by blast
  from example_success 1 r 2 show ?thesis by simp
qed

subsection \<open>Validation fails fast\<close>

text \<open>
  Claim C4: for an id that is not registered, a call with an address whose split fails,
  whose host is no IP literal or whose port is no decimal value fitting in 16 bits
  returns one of the validation errors, with no dial made and the schedule untouched: no
  tick is consumed, whatever the schedule holds.
\<close>

theorem malformed_fails_fast:
  assumes "registry w i = None" "malformed net addr"
  shows "\<exists>e w'. CheckLive net b i addr sched w = Returned (Some e) w' [] sched \<and>
           validation_error e \<and> registry w' i = None"
proof -
  from CheckLive_malformed [OF assms, of b] obtain e w1 where
    "validation_error e"
    "CheckLive net b i addr sched w = Returned (Some e) (cf (next_token w) i w1) [] sched"
    by blast
  moreover have "registry (cf (next_token w) i w1) i = None" by (simp add: registry_cf)
  ultimately show ?thesis by blast
qed

text \<open>Port 99999, with a tick pending at which the endpoint would be up.\<close>

theorem malformed_fails_fast_witness:
  "registry zero_world 1 = None \<and> malformed example_net ''127.0.0.1:99999'' \<and>
   (\<exists>e w'. CheckLive example_net [] 1 ''127.0.0.1:99999'' [TickFires True] zero_world =
       Returned (Some e) w' [] [TickFires True] \<and> validation_error e \<and> registry w' 1 = None)"
  using malformed_fails_fast [OF zero_fresh example_bad_port,
      where i = 1 and b = "[]" and sched = "[TickFires True]"]
    zero_fresh [of 1] example_bad_port by simp

subsection \<open>Cancellation\<close>

text \<open>
  Claim C6: take a well-formed address and a probe that is still polling after the
  events \<open>pre\<close>, with its scope done. As soon as \<open>select\<close> takes the done
  case, \<open>CheckLive\<close> returns the error "canceled", with no further dial and the rest of
  the schedule untouched; whatever follows \<open>pre\<close>, the call never returns success;
  any continuation in which the done case is taken ends in "canceled" (or in the panic of
  another goroutine). The error "canceled" is neither nil nor a validation error.
\<close>

theorem cancelled_probe_returns_canceled:
  assumes "registry w i = None" "\<not> malformed net addr"
    and "CheckLive net b i addr pre w = Polling w' tr'"
    and "ctx_done w' (next_token w # b)"
  shows "CheckLive net b i addr (pre @ DoneFires # rest) w =
           Returned (Some (ErrorString ''canceled'')) (cf (next_token w) i w') tr' rest \<and>
         (\<forall>es w'' tr'' rest'. CheckLive net b i addr (pre @ es) w \<noteq> Returned None w'' tr'' rest') \<and>
         (\<forall>es. DoneFires \<in> set es \<longrightarrow>
            (\<exists>w'' tr'' rest'. CheckLive net b i addr (pre @ es) w =
               Returned (Some (ErrorString ''canceled'')) w'' tr'' rest') \<or>
            (\<exists>m w''. CheckLive net b i addr (pre @ es) w = Panicked m w'')) \<and>
         \<not> validation_error (ErrorString ''canceled'') \<and>
         Some (ErrorString ''canceled'') \<noteq> (None :: error option)"
proof -
  let ?c = "next_token w"
  from CheckLive_wellformed [OF assms(1,2), of b] obtain w1 where
    cl: "\<And>sched. CheckLive net b i addr sched w =
        deferred (cf ?c i) (poll (?c # b) addr sched w1 [])"
    by blast
  from assms(3) have p: "poll (?c # b) addr pre w1 [] = Polling w' tr'"
    by (simp add: cl deferred_Polling)
  have ap: "\<And>es. poll (?c # b) addr (pre @ es) w1 [] = poll (?c # b) addr es w' tr'"
    by (rule poll_append [OF p])
  have 1: "CheckLive net b i addr (pre @ DoneFires # rest) w =
           Returned (Some (ErrorString ''canceled'')) (cf ?c i w') tr' rest"
    using assms(4) by (simp add: cl ap)
  have 2: "CheckLive net b i addr (pre @ es) w \<noteq> Returned None w'' tr'' rest'"
    for es w'' tr'' rest'
  proof
    assume "CheckLive net b i addr (pre @ es) w = Returned None w'' tr'' rest'"
    then obtain w2 where "poll (?c # b) addr es w' tr' = Returned None w2 tr'' rest'"
      by (auto simp: cl ap deferred_Returned)
    from poll_after_done [OF assms(4) this] show False by simp
  qed
  have 3: "(\<exists>w'' tr'' rest'. CheckLive net b i addr (pre @ es) w =
               Returned (Some (ErrorString ''canceled'')) w'' tr'' rest') \<or>
            (\<exists>m w''. CheckLive net b i addr (pre @ es) w = Panicked m w'')"
    if "DoneFires \<in> set es" for es
    using poll_done_returns [OF assms(4) that, of addr tr'] by (auto simp: cl ap)
  show ?thesis using 1 2 3 by simp
qed

text \<open>One failed dial, then \<open>Cancel 1\<close> from the control path, then the done case.\<close>

theorem cancelled_probe_returns_canceled_witness:
  "registry zero_world 1 = None \<and> \<not> malformed example_net ''127.0.0.1:80'' \<and>
   CheckLive example_net [] 1 ''127.0.0.1:80'' [TickFires False, Other (CallCancel 1)] zero_world =
     Polling \<lparr>pfn = \<lparr>cancel = Some Map.empty\<rparr>, cancelled = {0}, next_token = 1\<rparr>
       [Dial ''127.0.0.1:80'' False] \<and>
   ctx_done \<lparr>pfn = \<lparr>cancel = Some Map.empty\<rparr>, cancelled = {0}, next_token = 1\<rparr> [0] \<and>
   CheckLive example_net [] 1 ''127.0.0.1:80''
       [TickFires False, Other (CallCancel 1), DoneFires, TickFires True] zero_world =
     Returned (Some (ErrorString ''canceled''))
       \<lparr>pfn = \<lparr>cancel = Some Map.empty\<rparr>, cancelled = {0}, next_token = 1\<rparr>
       [Dial ''127.0.0.1:80'' False] [TickFires True]"
proof -
  let ?W2 = "\<lparr>pfn = \<lparr>cancel = Some Map.empty\<rparr>, cancelled = {0::nat}, next_token = 1::nat\<rparr>"
  have d: "ctx_done ?W2 (next_token zero_world # [])" by (simp add: ctx_done_def next_zero)
  from cancelled_probe_returns_canceled [OF zero_fresh example_valid example_polling d,
      where rest = "[TickFires True]"]
  have "CheckLive example_net [] 1 ''127.0.0.1:80''
       ([TickFires False, Other (CallCancel 1)] @ DoneFires # [TickFires True]) zero_world =
     Returned (Some (ErrorString ''canceled'')) (cf (next_token zero_world) 1 ?W2)
       [Dial ''127.0.0.1:80'' False] [TickFires True]"
    by blast
  then have "CheckLive example_net [] 1 ''127.0.0.1:80''
       [TickFires False, Other (CallCancel 1), DoneFires, TickFires True] zero_world =
     Returned (Some (ErrorString ''canceled'')) ?W2 [Dial ''127.0.0.1:80'' False] [TickFires True]"
    by (simp add: next_zero cf_def Let_def invoke_def set_cancel_def go_delete_def)
  with zero_fresh [of 1] example_valid example_polling d show ?thesis
    by (simp add: next_zero)
qed

subsection \<open>Success and transient failures\<close>

text \<open>
  Claim C7: a returning \<open>CheckLive\<close> returns nil after some failed dials, one
  successful dial and the close of its connection; or "canceled" after failed dials only;
  or a validation error without any dial, the address being malformed. So it returns nil
  exactly when a dial succeeded. A tick at which the dial fails leaves a polling probe
  polling, with the failed dial recorded; a tick at which it succeeds makes it return nil.
\<close>

theorem success_iff_dial_succeeds:
  "(\<forall>r w' tr rest. CheckLive net b i addr sched w = Returned r w' tr rest \<longrightarrow>
      ((r = None \<and> (\<exists>n. tr = replicate n (Dial addr False) @ [Dial addr True, Close])) \<or>
       (r = Some (ErrorString ''canceled'') \<and> (\<exists>n. tr = replicate n (Dial addr False))) \<or>
       (\<exists>e. r = Some e \<and> validation_error e \<and> tr = [] \<and> malformed net addr)) \<and>
      (r = None \<longleftrightarrow> Dial addr True \<in> set tr)) \<and>
   (\<forall>w1 tr1 up. CheckLive net b i addr pre w = Polling w1 tr1 \<longrightarrow>
      CheckLive net b i addr (pre @ [TickFires up]) w =
        (if DialContext w1 (next_token w # b) up
         then Returned None (cf (next_token w) i w1) (tr1 @ [Dial addr True, Close]) []
         else Polling w1 (tr1 @ [Dial addr False])))"
proof -
  let ?c = "next_token w"
  have A: "((r = None \<and> (\<exists>n. tr = replicate n (Dial addr False) @ [Dial addr True, Close])) \<or>
       (r = Some (ErrorString ''canceled'') \<and> (\<exists>n. tr = replicate n (Dial addr False))) \<or>
       (\<exists>e. r = Some e \<and> validation_error e \<and> tr = [] \<and> malformed net addr))"
    if ret: "CheckLive net b i addr sched w = Returned r w' tr rest" for r w' tr rest
  proof -
    from CheckLive_cases [of w i net b addr] show ?thesis
    proof (elim disjE conjE exE)
      fix h
      assume "\<forall>sched. CheckLive net b i addr sched w =
         Panicked ''duplicate id'' (w\<lparr>next_token := Suc (next_token w)\<rparr>)"
      then have "CheckLive net b i addr sched w =
         Panicked ''duplicate id'' (w\<lparr>next_token := Suc (next_token w)\<rparr>)" by blast
      with ret show ?thesis by simp
    next
      fix e w1
      assume m: "malformed net addr" and v: "validation_error e"
        and "\<forall>sched. CheckLive net b i addr sched w =
            Returned (Some e) (cf ?c i w1) [] sched"
      then have "CheckLive net b i addr sched w = Returned (Some e) (cf ?c i w1) [] sched"
        by blast
      with ret have "r = Some e" "tr = []" by simp_all
      with m v show ?thesis by blast
    next
      fix w1
      assume "\<forall>sched. CheckLive net b i addr sched w =
            deferred (cf ?c i) (poll (?c # b) addr sched w1 [])"
      then have "CheckLive net b i addr sched w =
            deferred (cf ?c i) (poll (?c # b) addr sched w1 [])" by blast
      with ret obtain w2 where "poll (?c # b) addr sched w1 [] = Returned r w2 tr rest"
        by (auto simp: deferred_Returned)
      from poll_trace [OF this] show ?thesis by blast
    qed
  qed
  have B: "r = None \<longleftrightarrow> Dial addr True \<in> set tr"
    if ret: "CheckLive net b i addr sched w = Returned r w' tr rest" for r w' tr rest
    using A [OF ret] by auto
  have C: "CheckLive net b i addr (pre @ [TickFires up]) w =
        (if DialContext w1 (?c # b) up
         then Returned None (cf ?c i w1) (tr1 @ [Dial addr True, Close]) []
         else Polling w1 (tr1 @ [Dial addr False]))"
    if pol: "CheckLive net b i addr pre w = Polling w1 tr1" for w1 tr1 up
  proof -
    from CheckLive_cases [of w i net b addr] pol obtain w0 where
      cl: "\<And>sched. CheckLive net b i addr sched w =
            deferred (cf ?c i) (poll (?c # b) addr sched w0 [])"
      by auto
    from pol have p: "poll (?c # b) addr pre w0 [] = Polling w1 tr1"
      by (simp add: cl deferred_Polling)
    show ?thesis by (simp add: cl poll_append [OF p])
  qed
  from A B C show ?thesis by blast
qed

text \<open>Success at the second tick; after \<open>Cancel 1\<close> a tick only adds a failed dial.\<close>

theorem success_iff_dial_succeeds_witness:
  "CheckLive example_net [] 1 ''127.0.0.1:80'' [TickFires False, TickFires True] zero_world =
     Returned None \<lparr>pfn = \<lparr>cancel = Some Map.empty\<rparr>, cancelled = {0}, next_token = 1\<rparr>
       [Dial ''127.0.0.1:80'' False, Dial ''127.0.0.1:80'' True, Close] [] \<and>
   Dial ''127.0.0.1:80'' True \<in>
     set [Dial ''127.0.0.1:80'' False, Dial ''127.0.0.1:80'' True, Close] \<and>
   CheckLive example_net [] 1 ''127.0.0.1:80'' [TickFires False, Other (CallCancel 1)] zero_world =
     Polling \<lparr>pfn = \<lparr>cancel = Some Map.empty\<rparr>, cancelled = {0}, next_token = 1\<rparr>
       [Dial ''127.0.0.1:80'' False] \<and>
   CheckLive example_net [] 1 ''127.0.0.1:80''
       [TickFires False, Other (CallCancel 1), TickFires True] zero_world =
     Polling \<lparr>pfn = \<lparr>cancel = Some Map.empty\<rparr>, cancelled = {0}, next_token = 1\<rparr>
       [Dial ''127.0.0.1:80'' False, Dial ''127.0.0.1:80'' False]"
proof -
  let ?a = "''127.0.0.1:80''"
  let ?W2 = "\<lparr>pfn = \<lparr>cancel = Some Map.empty\<rparr>, cancelled = {0::nat}, next_token = 1::nat\<rparr>"
  note t = success_iff_dial_succeeds
    [where net = example_net and b = "[]" and i = 1 and addr = ?a
       and sched = "[TickFires False, TickFires True]" and w = zero_world
       and pre = "[TickFires False, Other (CallCancel 1)]"]
  from t example_success
  have 1: "(None :: error option) = None \<longleftrightarrow>
      Dial ?a True \<in> set [Dial ?a False, Dial ?a True, Close]" by blast
  from t example_polling
  have "CheckLive example_net [] 1 ?a
       ([TickFires False, Other (CallCancel 1)] @ [TickFires True]) zero_world =
     (if DialContext ?W2 (next_token zero_world # []) True
      then Returned None (cf (next_token zero_world) 1 ?W2)
             ([Dial ?a False] @ [Dial ?a True, Close]) []
      else Polling ?W2 ([Dial ?a False] @ [Dial ?a False]))" by blast
  then have 2: "CheckLive example_net [] 1 ?a
       [TickFires False, Other (CallCancel 1), TickFires True] zero_world =
     Polling ?W2 [Dial ?a False, Dial ?a False]"
    by (simp add: DialContext_def ctx_done_def next_zero)
  from example_success example_polling 1 2 show ?thesis by simp
qed

subsection \<open>What validation accepts\<close>

text \<open>
  Claim C8: \<open>ParseUint\<close> accepts a port exactly when it is a non-empty string of
  decimal digits with a value of at most 65535, and returns that value; and for an
  address that splits into host and port and an id that is not registered,
  \<open>CheckLive\<close> returns "invalid IP" exactly when the host does not parse as an IP
  literal, otherwise "invalid port" exactly when the port is no such string, and
  otherwise enters the polling loop.
\<close>

theorem validation_accepts_iff:
  assumes "registry w i = None" "SplitHostPort net addr = Inr (host, port)"
  shows "((\<exists>n. ParseUint port = Inr n) \<longleftrightarrow> spec_port_ok port) \<and>
         (\<forall>n. ParseUint port = Inr n \<longrightarrow> unat n = decimal 0 port) \<and>
         (\<exists>w1. makeContext b i w = Inr (next_token w # b, next_token w, w1) \<and>
            CheckLive net b i addr sched w =
              (if ParseIP net host = None
               then Returned (Some (ErrorString ''invalid IP'')) (cf (next_token w) i w1) [] sched
               else if \<not> spec_port_ok port
               then Returned (Some (ErrorString ''invalid port'')) (cf (next_token w) i w1) [] sched
               else deferred (cf (next_token w) i) (poll (next_token w # b) addr sched w1 [])))"
proof -
  have 1: "(\<exists>n. ParseUint port = Inr n) \<longleftrightarrow> spec_port_ok port"
    by (simp add: ParseUint_spec)
  have 2: "unat n = decimal 0 port" if "ParseUint port = Inr n" for n
  proof -
    from that have "spec_port_ok port" "n = of_nat (decimal 0 port)"
      by (simp_all add: ParseUint_spec)
    then show ?thesis by (simp add: spec_port_ok_def unat_of_nat)
  qed
  from CheckLive_fresh [OF assms(1), of b net addr sched] assms(2)
  have 3: "\<exists>w1. makeContext b i w = Inr (next_token w # b, next_token w, w1) \<and>
            CheckLive net b i addr sched w =
              (if ParseIP net host = None
               then Returned (Some (ErrorString ''invalid IP'')) (cf (next_token w) i w1) [] sched
               else if \<not> spec_port_ok port
               then Returned (Some (ErrorString ''invalid port'')) (cf (next_token w) i w1) [] sched
               else deferred (cf (next_token w) i) (poll (next_token w # b) addr sched w1 []))"
    by auto
  from 1 2 3 show ?thesis by blast
qed

text \<open>Port 99999 is out of range.\<close>

theorem validation_accepts_iff_witness:
  "registry zero_world 1 = None \<and>
   SplitHostPort example_net ''127.0.0.1:99999'' = Inr (''127.0.0.1'', ''99999'') \<and>
   \<not> spec_port_ok ''99999'' \<and> \<not> (\<exists>n. ParseUint ''99999'' = Inr n) \<and>
   (\<exists>w1. makeContext [] 1 zero_world = Inr ([0], 0, w1) \<and>
      CheckLive example_net [] 1 ''127.0.0.1:99999'' [TickFires True] zero_world =
        Returned (Some (ErrorString ''invalid port'')) (cf 0 1 w1) [] [TickFires True])"
proof -
  have s: "SplitHostPort example_net ''127.0.0.1:99999'' = Inr (''127.0.0.1'', ''99999'')"
    by (simp add: example_net_def)
  have ip: "ParseIP example_net ''127.0.0.1'' \<noteq> None" by (simp add: example_net_def)
  have np: "\<not> spec_port_ok ''99999''" by (simp add: spec_port_ok_def is_digit_def)
  from validation_accepts_iff [OF zero_fresh s, where i = 1 and b = "[]"
      and sched = "[TickFires True]"] ip np
    zero_fresh [of 1] s
  show ?thesis by (simp add: next_zero)
qed

subsection \<open>Registration comes first\<close>

text \<open>
  Claim C9: with the id already registered, \<open>CheckLive\<close> panics with "duplicate id"
  whatever the address, malformed ones included, and the registry keeps its entries; with
  the id absent and a malformed address, \<open>makeContext\<close> registers the id, and the
  call returns a validation error in a state from which the done callback has removed the
  id again.
\<close>

theorem registration_precedes_validation:
  "(\<forall>h. registry w i = Some h \<longrightarrow>
      (\<exists>w'. CheckLive net b i addr sched w = Panicked ''duplicate id'' w' \<and>
            registry w' = registry w)) \<and>
   (registry w i = None \<and> malformed net addr \<longrightarrow>
      (\<exists>c w1 e. makeContext b i w = Inr (c # b, c, w1) \<and> registry w1 i = Some c \<and>
         CheckLive net b i addr sched w = Returned (Some e) (cf c i w1) [] sched \<and>
         validation_error e \<and> registry (cf c i w1) i = None))"
proof -
  have 1: "\<exists>w'. CheckLive net b i addr sched w = Panicked ''duplicate id'' w' \<and>
            registry w' = registry w" if "registry w i = Some h" for h
    using CheckLive_dup [OF that, of net b addr sched] by simp
  have 2: "\<exists>c w1 e. makeContext b i w = Inr (c # b, c, w1) \<and> registry w1 i = Some c \<and>
         CheckLive net b i addr sched w = Returned (Some e) (cf c i w1) [] sched \<and>
         validation_error e \<and> registry (cf c i w1) i = None"
    if "registry w i = None" "malformed net addr"
  proof -
    from CheckLive_malformed [OF that, of b] obtain e w1 where
      "validation_error e" "makeContext b i w = Inr (next_token w # b, next_token w, w1)"
      "registry w1 i = Some (next_token w)"
      "CheckLive net b i addr sched w = Returned (Some e) (cf (next_token w) i w1) [] sched"
      by blast
    moreover have "registry (cf (next_token w) i w1) i = None" by (simp add: registry_cf)
    ultimately show ?thesis by blast
  qed
  from 1 2 show ?thesis by blast
qed

text \<open>The address \<open>not-an-ip:80\<close>, with id 1 registered and on the zero value.\<close>

theorem registration_precedes_validation_witness:
  "registry \<lparr>pfn = \<lparr>cancel = Some [1 \<mapsto> 0]\<rparr>, cancelled = {}, next_token = 1\<rparr> 1 = Some 0 \<and>
   malformed example_net ''not-an-ip:80'' \<and>
   (\<exists>w'. CheckLive example_net [] 1 ''not-an-ip:80'' []
           \<lparr>pfn = \<lparr>cancel = Some [1 \<mapsto> 0]\<rparr>, cancelled = {}, next_token = 1\<rparr> =
         Panicked ''duplicate id'' w' \<and> registry w' 1 = Some 0) \<and>
   registry zero_world 1 = None \<and>
   (\<exists>c w1 e. makeContext [] 1 zero_world = Inr ([c], c, w1) \<and> registry w1 1 = Some c \<and>
      CheckLive example_net [] 1 ''not-an-ip:80'' [] zero_world =
        Returned (Some e) (cf c 1 w1) [] [] \<and>
      validation_error e \<and> registry (cf c 1 w1) 1 = None)"
proof -
  let ?W1 = "\<lparr>pfn = \<lparr>cancel = Some [1 \<mapsto> 0]\<rparr>, cancelled = {}, next_token = 1\<rparr>"
  have r: "registry ?W1 1 = Some 0" by (simp add: registry_def go_index_def)
  from registration_precedes_validation [where w = ?W1 and i = 1 and net = example_net
      and b = "[]" and addr = "''not-an-ip:80''" and sched = "[]"] r
  have 1: "\<exists>w'. CheckLive example_net [] 1 ''not-an-ip:80'' [] ?W1 =
         Panicked ''duplicate id'' w' \<and> registry w' 1 = Some 0"
    by auto
  from registration_precedes_validation [where w = zero_world and i = 1 and net = example_net
      and b = "[]" and addr = "''not-an-ip:80''" and sched = "[]"]
    zero_fresh [of 1] example_bad_host
  have 2: "\<exists>c w1 e. makeContext [] 1 zero_world = Inr ([c], c, w1) \<and> registry w1 1 = Some c \<and>
      CheckLive example_net [] 1 ''not-an-ip:80'' [] zero_world =
        Returned (Some e) (cf c 1 w1) [] [] \<and>
      validation_error e \<and> registry (cf c 1 w1) 1 = None"
    by blast
  from r example_bad_host 1 zero_fresh [of 1] 2 show ?thesis by blast
qed

end
